theory Spec2Isabelle
  imports Main
begin

section \<open>The recording hook of MediaRecord.tsx\<close>

text \<open>
  The development embeds \<^verbatim>\<open>useReactMediaRecorder\<close> of
  \<^verbatim>\<open>src/components/MediaRecord.tsx\<close>. The hook keeps two pieces of React state
  (\<^verbatim>\<open>status\<close>, \<^verbatim>\<open>mediaBlobUrl\<close>) and three mutable refs
  (\<^verbatim>\<open>mediaRecorderRef\<close>, \<^verbatim>\<open>audioChunksRef\<close>, \<^verbatim>\<open>streamRef\<close>). Every command and
  every device callback is a function on a record holding these cells together with the
  part of the browser they act on: the recorder objects, the media streams, the registry
  of object URLs, the outstanding \<^verbatim>\<open>getUserMedia\<close> requests and the trace of
  \<^verbatim>\<open>onStop\<close> invocations.

  Each command and callback runs as a task of its own, and React re-renders between tasks,
  so the \<^verbatim>\<open>status\<close> a callback closes over is the one of the state it is applied to.
  What the browser and the caller decide is a parameter of the event: the stream and the
  faults of a grant, the error of a rejection, the fragment delivered, and whether the
  caller's \<^verbatim>\<open>onStop\<close> returns or throws.
\<close>

subsection \<open>Data\<close>

datatype RecordingStatus = idle | recording | paused | stopped | permission_denied

text \<open>A \<^verbatim>\<open>Blob\<close>: its bytes and its MIME type.\<close>

record Blob =
  blob_bytes :: "nat list"
  blob_type :: string

text \<open>
  \<^verbatim>\<open>new Blob(parts, { type })\<close> concatenates the parts in order. The constructor does
  not keep the type string as given: a string with a character outside U+0020 to U+007E
  becomes the empty string, any other string is converted to ASCII lower case. An
  upper-case letter (codes 65 to 90) has bit 5 clear, and setting it adds 32.
\<close>

definition ascii_lowercase :: "char \<Rightarrow> char" where
  "ascii_lowercase c =
     (if 65 \<le> (of_char c :: nat) \<and> (of_char c :: nat) \<le> 90
      then (case c of Char b0 b1 b2 b3 b4 b5 b6 b7 \<Rightarrow> Char b0 b1 b2 b3 b4 True b6 b7)
      else c)"

definition normalize_type :: "string \<Rightarrow> string" where
  "normalize_type ty =
     (if list_all (\<lambda>c. 32 \<le> (of_char c :: nat) \<and> (of_char c :: nat) \<le> 126) ty
      then map ascii_lowercase ty else [])"

definition new_Blob :: "Blob list \<Rightarrow> string \<Rightarrow> Blob" where
  "new_Blob parts ty =
     \<lparr>blob_bytes = concat (map blob_bytes parts), blob_type = normalize_type ty\<rparr>"

text \<open>What a \<^verbatim>\<open>catch\<close> can see: a \<^verbatim>\<open>DOMException\<close> with its name, or anything else.\<close>

datatype js_error = DOMException string | TypeError | OtherError

text \<open>
  A track of a media stream. \<^verbatim>\<open>stop_calls\<close> counts the invocations of
  \<^verbatim>\<open>track.stop()\<close>, so that releasing a stream once, never or twice can be told apart.
\<close>

record MediaStreamTrack =
  track_ended :: bool
  stop_calls :: nat

type_synonym MediaStream = "MediaStreamTrack list"

definition live_track :: MediaStreamTrack where
  "live_track = \<lparr>track_ended = False, stop_calls = 0\<rparr>"

definition track_stop :: "MediaStreamTrack \<Rightarrow> MediaStreamTrack" where
  "track_stop t = t\<lparr>track_ended := True, stop_calls := Suc (stop_calls t)\<rparr>"

text \<open>
  A \<^verbatim>\<open>MediaRecorder\<close> of the browser. \<^verbatim>\<open>finalizing\<close> holds while the task queued by
  \<^verbatim>\<open>stop()\<close> (a last \<^verbatim>\<open>dataavailable\<close>, then \<^verbatim>\<open>stop\<close>) has not fired its
  \<^verbatim>\<open>stop\<close> event yet.
\<close>

datatype RecorderState = rs_inactive | rs_recording | rs_paused

record MediaRecorder =
  rec_state :: RecorderState
  rec_stream :: nat
  mimeType :: string
  finalizing :: bool

definition new_MediaRecorder :: "nat \<Rightarrow> string \<Rightarrow> MediaRecorder" where
  "new_MediaRecorder st mime =
     \<lparr>rec_state = rs_inactive, rec_stream = st, mimeType = mime, finalizing = False\<rparr>"

text \<open>
  The recorder's methods, as the MediaStream Recording API defines them: \<^verbatim>\<open>stop()\<close> on an
  inactive recorder does nothing; \<^verbatim>\<open>pause()\<close> and \<^verbatim>\<open>resume()\<close> on an inactive recorder
  throw \<^verbatim>\<open>InvalidStateError\<close>.
\<close>

definition MediaRecorder_start :: "MediaRecorder \<Rightarrow> MediaRecorder" where
  "MediaRecorder_start r = r\<lparr>rec_state := rs_recording\<rparr>"

definition MediaRecorder_stop :: "MediaRecorder \<Rightarrow> MediaRecorder" where
  "MediaRecorder_stop r =
     (if rec_state r = rs_inactive then r
      else r\<lparr>rec_state := rs_inactive, finalizing := True\<rparr>)"

definition MediaRecorder_pause :: "MediaRecorder \<Rightarrow> js_error + MediaRecorder" where
  "MediaRecorder_pause r =
     (if rec_state r = rs_inactive then Inl (DOMException ''InvalidStateError'')
      else Inr (r\<lparr>rec_state := rs_paused\<rparr>))"

definition MediaRecorder_resume :: "MediaRecorder \<Rightarrow> js_error + MediaRecorder" where
  "MediaRecorder_resume r =
     (if rec_state r = rs_inactive then Inl (DOMException ''InvalidStateError'')
      else Inr (r\<lparr>rec_state := rs_recording\<rparr>))"

text \<open>
  The hook's cells and the browser objects they point into. A ref holds the index of its
  object in the list of all objects of that kind ever created; \<^verbatim>\<open>mediaBlobUrl\<close> holds the
  index of its blob in \<^verbatim>\<open>object_urls\<close>, the registry \<^verbatim>\<open>URL.createObjectURL\<close> adds to.
  \<^verbatim>\<open>onStop_given\<close> says whether the caller passed the optional \<^verbatim>\<open>onStop\<close> prop, and
  \<^verbatim>\<open>onStop_calls\<close> lists the blobs it has been invoked with, oldest first.
\<close>

record hook =
  status :: RecordingStatus
  mediaBlobUrl :: "nat option"
  mediaRecorderRef :: "nat option"
  audioChunksRef :: "Blob list"
  streamRef :: "nat option"
  recorders :: "MediaRecorder list"
  streams :: "MediaStream list"
  object_urls :: "Blob list"
  pending_requests :: nat
  onStop_given :: bool
  onStop_calls :: "Blob list"

definition init :: "bool \<Rightarrow> hook" where
  "init given =
     \<lparr>status = idle, mediaBlobUrl = None, mediaRecorderRef = None, audioChunksRef = [],
      streamRef = None, recorders = [], streams = [], object_urls = [],
      pending_requests = 0, onStop_given = given, onStop_calls = []\<rparr>"

text \<open>
  Reading a ref: \<^verbatim>\<open>None\<close> for \<^verbatim>\<open>null\<close>, otherwise the index and the object. A ref is
  only ever assigned the index of an object just created (lemma \<open>reachable_inv\<close>), so the
  out-of-range branch is never taken from the initial state.
\<close>

definition deref :: "'a list \<Rightarrow> nat option \<Rightarrow> (nat \<times> 'a) option" where
  "deref heap ref =
     (case ref of
        None \<Rightarrow> None
      | Some i \<Rightarrow> if i < length heap then Some (i, heap ! i) else None)"

subsection \<open>The commands and callbacks of the hook\<close>

text \<open>\<^verbatim>\<open>reset\<close> (lines 40-44).\<close>

definition reset :: "hook \<Rightarrow> hook" where
  "reset s = s\<lparr>status := idle, mediaBlobUrl := None, audioChunksRef := []\<rparr>"

text \<open>
  \<^verbatim>\<open>startRecording\<close> (lines 46-83) is asynchronous. Up to its \<^verbatim>\<open>await\<close> it only issues
  the \<^verbatim>\<open>getUserMedia\<close> request.
\<close>

definition startRecording :: "hook \<Rightarrow> hook" where
  "startRecording s = s\<lparr>pending_requests := Suc (pending_requests s)\<rparr>"

text \<open>The \<^verbatim>\<open>catch\<close> block (lines 74-82).\<close>

definition startRecording_catch :: "js_error \<Rightarrow> hook \<Rightarrow> hook" where
  "startRecording_catch err s =
     (case err of
        DOMException name \<Rightarrow>
          if name = ''NotAllowedError'' then s\<lparr>status := permission_denied\<rparr>
          else s\<lparr>status := idle\<rparr>
      | _ \<Rightarrow> s\<lparr>status := idle\<rparr>)"

text \<open>
  The rest of the \<^verbatim>\<open>try\<close> block (lines 49-73), run when the request is granted a stream of
  \<open>n\<close> tracks. The constructor of the recorder and its \<^verbatim>\<open>start()\<close> stand inside the
  \<^verbatim>\<open>try\<close>, so either may throw into the \<^verbatim>\<open>catch\<close>; the browser decides, hence the
  parameter \<open>fault\<close>.
\<close>

datatype grant_fault = NoFault | CtorThrows js_error | StartThrows js_error

definition startRecording_granted :: "nat \<Rightarrow> string \<Rightarrow> grant_fault \<Rightarrow> hook \<Rightarrow> hook" where
  "startRecording_granted n mime fault s =
     (let st = length (streams s);
          s1 = s\<lparr>streams := streams s @ [replicate n live_track], streamRef := Some st\<rparr>
      in case fault of
           CtorThrows err \<Rightarrow> startRecording_catch err s1
         | _ \<Rightarrow>
           (let r = length (recorders s1);
                s2 = s1\<lparr>recorders := recorders s1 @ [new_MediaRecorder st mime],
                        mediaRecorderRef := Some r\<rparr>
            in case fault of
                 StartThrows err \<Rightarrow> startRecording_catch err s2
               | _ \<Rightarrow>
                 s2\<lparr>recorders := (recorders s2)[r := MediaRecorder_start (recorders s2 ! r)],
                    status := recording\<rparr>))"

text \<open>The \<^verbatim>\<open>ondataavailable\<close> handler (lines 53-55).\<close>

definition ondataavailable :: "Blob \<Rightarrow> hook \<Rightarrow> hook" where
  "ondataavailable d s = s\<lparr>audioChunksRef := audioChunksRef s @ [d]\<rparr>"

text \<open>
  The \<^verbatim>\<open>onstop\<close> handler (lines 57-70). It reads the MIME type through
  \<^verbatim>\<open>mediaRecorderRef.current!\<close>, the recorder the ref holds now, which throws a
  \<^verbatim>\<open>TypeError\<close> on \<^verbatim>\<open>null\<close> before anything is written. The caller's \<^verbatim>\<open>onStop\<close>
  is called with no \<^verbatim>\<open>try\<close> around it: what it does is the caller's business, so it is
  the parameter \<open>cb\<close>. When it throws, the handler ends there, with the URL registered
  and \<^verbatim>\<open>setMediaBlobUrl\<close> done, but the buffer not emptied and the status not set. An
  exception carries the state reached when it was thrown.
\<close>

datatype callback_result = Returns | Throws js_error

definition onstop :: "callback_result \<Rightarrow> hook \<Rightarrow> (js_error \<times> hook) + hook" where
  "onstop cb s =
     (case deref (recorders s) (mediaRecorderRef s) of
        None \<Rightarrow> Inl (TypeError, s)
      | Some (r, mr) \<Rightarrow>
          (let audioBlob = new_Blob (audioChunksRef s) (mimeType mr);
               audioUrl = length (object_urls s);
               s1 = s\<lparr>object_urls := object_urls s @ [audioBlob], mediaBlobUrl := Some audioUrl\<rparr>
           in if onStop_given s1 then
                (let s2 = s1\<lparr>onStop_calls := onStop_calls s1 @ [audioBlob]\<rparr>
                 in case cb of
                      Throws err \<Rightarrow> Inl (err, s2)
                    | Returns \<Rightarrow> Inr (s2\<lparr>audioChunksRef := [], status := stopped\<rparr>))
              else Inr (s1\<lparr>audioChunksRef := [], status := stopped\<rparr>)))"

text \<open>\<^verbatim>\<open>stopRecording\<close> (lines 85-93).\<close>

definition stopRecording :: "hook \<Rightarrow> hook" where
  "stopRecording s =
     (case deref (recorders s) (mediaRecorderRef s) of
        None \<Rightarrow> s
      | Some (r, mr) \<Rightarrow>
          if status s \<in> set [recording, paused] then
            (let s1 = s\<lparr>recorders := (recorders s)[r := MediaRecorder_stop mr]\<rparr>
             in case deref (streams s1) (streamRef s1) of
                  None \<Rightarrow> s1
                | Some (st, tracks) \<Rightarrow> s1\<lparr>streams := (streams s1)[st := map track_stop tracks]\<rparr>)
          else s)"

text \<open>
  \<^verbatim>\<open>pauseRecording\<close> (lines 95-100) and \<^verbatim>\<open>resumeRecording\<close> (lines 102-107). An
  exception of the recorder leaves the command before \<^verbatim>\<open>setStatus\<close>.
\<close>

definition pauseRecording :: "hook \<Rightarrow> js_error + hook" where
  "pauseRecording s =
     (case deref (recorders s) (mediaRecorderRef s) of
        None \<Rightarrow> Inr s
      | Some (r, mr) \<Rightarrow>
          if status s = recording then
            (case MediaRecorder_pause mr of
               Inl err \<Rightarrow> Inl err
             | Inr mr' \<Rightarrow> Inr (s\<lparr>recorders := (recorders s)[r := mr'], status := paused\<rparr>))
          else Inr s)"

definition resumeRecording :: "hook \<Rightarrow> js_error + hook" where
  "resumeRecording s =
     (case deref (recorders s) (mediaRecorderRef s) of
        None \<Rightarrow> Inr s
      | Some (r, mr) \<Rightarrow>
          if status s = paused then
            (case MediaRecorder_resume mr of
               Inl err \<Rightarrow> Inl err
             | Inr mr' \<Rightarrow> Inr (s\<lparr>recorders := (recorders s)[r := mr'], status := recording\<rparr>))
          else Inr s)"

subsection \<open>Events\<close>

text \<open>
  What can happen to the hook: the caller invokes one of the five commands, a pending
  \<^verbatim>\<open>getUserMedia\<close> request is granted or rejected, or a recorder fires
  \<^verbatim>\<open>dataavailable\<close> or \<^verbatim>\<open>stop\<close>. \<open>fire\<close> is \<open>None\<close> where the browser cannot deliver
  the event: a grant or rejection with no request pending, data from a recorder that is
  neither active nor finalizing, a \<^verbatim>\<open>stop\<close> event no \<^verbatim>\<open>stop()\<close> has queued. A
  \<^verbatim>\<open>stop\<close> event comes with what the caller's \<^verbatim>\<open>onStop\<close> will do when the handler calls
  it. An exception that leaves a command or handler ends that task with the state as it
  stands.
\<close>

datatype event =
    StartCall | StopCall | PauseCall | ResumeCall | ResetCall
  | Granted nat string grant_fault
  | Rejected js_error
  | DataAvailable nat Blob
  | StopEvent nat callback_result

definition uncaught :: "hook \<Rightarrow> js_error + hook \<Rightarrow> hook" where
  "uncaught s res = (case res of Inl err \<Rightarrow> s | Inr s' \<Rightarrow> s')"

definition uncaught_thrown :: "(js_error \<times> hook) + hook \<Rightarrow> hook" where
  "uncaught_thrown res = (case res of Inl (err, s') \<Rightarrow> s' | Inr s' \<Rightarrow> s')"

definition request_settled :: "hook \<Rightarrow> hook" where
  "request_settled s = s\<lparr>pending_requests := pending_requests s - 1\<rparr>"

definition stop_event_fired :: "nat \<Rightarrow> hook \<Rightarrow> hook" where
  "stop_event_fired rid s =
     s\<lparr>recorders := (recorders s)[rid := (recorders s ! rid)\<lparr>finalizing := False\<rparr>]\<rparr>"

fun fire :: "event \<Rightarrow> hook \<Rightarrow> hook option" where
  "fire StartCall s = Some (startRecording s)"
| "fire StopCall s = Some (stopRecording s)"
| "fire PauseCall s = Some (uncaught s (pauseRecording s))"
| "fire ResumeCall s = Some (uncaught s (resumeRecording s))"
| "fire ResetCall s = Some (reset s)"
| "fire (Granted n mime fault) s =
     (if pending_requests s = 0 then None
      else Some (startRecording_granted n mime fault (request_settled s)))"
| "fire (Rejected err) s =
     (if pending_requests s = 0 then None
      else Some (startRecording_catch err (request_settled s)))"
| "fire (DataAvailable rid d) s =
     (if rid < length (recorders s) \<and>
         (rec_state (recorders s ! rid) \<noteq> rs_inactive \<or> finalizing (recorders s ! rid))
      then Some (ondataavailable d s) else None)"
| "fire (StopEvent rid cb) s =
     (if rid < length (recorders s) \<and> finalizing (recorders s ! rid)
      then Some (uncaught_thrown (onstop cb (stop_event_fired rid s)))
      else None)"

fun run :: "event list \<Rightarrow> hook \<Rightarrow> hook option" where
  "run [] s = Some s"
| "run (e # es) s = (case fire e s of None \<Rightarrow> None | Some s' \<Rightarrow> run es s')"

inductive reachable :: "hook \<Rightarrow> bool" where
  reachable_init: "reachable (init given)"
| reachable_fire: "reachable s \<Longrightarrow> fire e s = Some s' \<Longrightarrow> reachable s'"

text \<open>
  The fragments a trace delivers, and the events that empty the fragment buffer:
  \<^verbatim>\<open>reset()\<close>, and a completion event whose handler runs to its end, that is, one whose
  \<^verbatim>\<open>onStop\<close> is absent or returns.
\<close>

fun fragments_of :: "event list \<Rightarrow> Blob list" where
  "fragments_of [] = []"
| "fragments_of (DataAvailable rid d # es) = d # fragments_of es"
| "fragments_of (e # es) = fragments_of es"

fun clears :: "bool \<Rightarrow> event \<Rightarrow> bool" where
  "clears given ResetCall = True"
| "clears given (StopEvent rid cb) = (given \<longrightarrow> cb = Returns)"
| "clears given e = False"

fun is_stop_event :: "event \<Rightarrow> bool" where
  "is_stop_event (StopEvent rid cb) = True"
| "is_stop_event e = False"

text \<open>
  What may happen between \<^verbatim>\<open>stop()\<close> and the completion event without any command that
  sets the status: fragments arrive, \<^verbatim>\<open>stop()\<close> is called again, \<^verbatim>\<open>start()\<close> is called
  (its grant is another matter).
\<close>

fun in_window :: "event \<Rightarrow> bool" where
  "in_window (DataAvailable rid d) = True"
| "in_window StopCall = True"
| "in_window StartCall = True"
| "in_window e = False"

subsection \<open>Concrete inputs and the invariant\<close>

text \<open>
  Two states used as concrete inputs below: a fresh hook whose first \<^verbatim>\<open>start()\<close> has been
  granted a one-track stream, and the same hook with its \<^verbatim>\<open>start()\<close> still pending.
\<close>

definition pending_example :: hook where
  "pending_example = startRecording (init True)"

definition recording_example :: hook where
  "recording_example =
     startRecording_granted 1 ''audio/webm'' NoFault (request_settled pending_example)"

text \<open>
  The recorder \<^verbatim>\<open>mediaRecorderRef\<close> points to once any has been created, and what holds
  of the cells in every state the hook can reach.
\<close>

definition current_recorder :: "hook \<Rightarrow> MediaRecorder" where
  "current_recorder s = recorders s ! (length (recorders s) - 1)"

definition hook_inv :: "hook \<Rightarrow> bool" where
  "hook_inv s \<longleftrightarrow>
     mediaRecorderRef s = (if recorders s = [] then None else Some (length (recorders s) - 1)) \<and>
     streamRef s = (if streams s = [] then None else Some (length (streams s) - 1)) \<and>
     (recorders s \<noteq> [] \<longrightarrow> streams s \<noteq> []) \<and>
     (status s = recording \<or> status s = paused \<longrightarrow> recorders s \<noteq> []) \<and>
     (status s = stopped \<longrightarrow> mediaBlobUrl s \<noteq> None) \<and>
     (\<forall>u. mediaBlobUrl s = Some u \<longrightarrow> u < length (object_urls s))"

text \<open>A fragment used in concrete traces.\<close>

definition chunk_example :: Blob where
  "chunk_example = \<lparr>blob_bytes = [1, 2], blob_type = ''audio/webm''\<rparr>"

text \<open>
  The state of the example hook after \<^verbatim>\<open>stop()\<close>, one fragment and the completion event.
\<close>

definition stopped_example :: hook where
  "stopped_example =
     \<lparr>status = stopped, mediaBlobUrl = Some 0, mediaRecorderRef = Some 0,
      audioChunksRef = [], streamRef = Some 0,
      recorders = [\<lparr>rec_state = rs_inactive, rec_stream = 0, mimeType = ''audio/webm'',
                    finalizing = False\<rparr>],
      streams = [[\<lparr>track_ended = True, stop_calls = 1\<rparr>]],
      object_urls = [\<lparr>blob_bytes = [1, 2], blob_type = ''audio/webm''\<rparr>],
      pending_requests = 0, onStop_given = True,
      onStop_calls = [\<lparr>blob_bytes = [1, 2], blob_type = ''audio/webm''\<rparr>]\<rparr>"

text \<open>The example hook paused after one fragment.\<close>

definition paused_example :: hook where
  "paused_example =
     \<lparr>status = paused, mediaBlobUrl = None, mediaRecorderRef = Some 0,
      audioChunksRef = [\<lparr>blob_bytes = [1, 2], blob_type = ''audio/webm''\<rparr>],
      streamRef = Some 0,
      recorders = [\<lparr>rec_state = rs_paused, rec_stream = 0, mimeType = ''audio/webm'',
                    finalizing = False\<rparr>],
      streams = [[\<lparr>track_ended = False, stop_calls = 0\<rparr>]], object_urls = [],
      pending_requests = 0, onStop_given = True, onStop_calls = []\<rparr>"

text \<open>A second fragment.\<close>

definition chunk_example2 :: Blob where
  "chunk_example2 = \<lparr>blob_bytes = [3], blob_type = ''audio/webm''\<rparr>"

text \<open>
  Two takes on one hook: a first session run to completion, then a second one, paused
  before it is stopped, up to the point where its completion event is due.
\<close>

definition first_take :: "event list" where
  "first_take =
     [StartCall, Granted 1 ''audio/webm'' NoFault, StopCall, DataAvailable 0 chunk_example,
      StopEvent 0 Returns]"

definition second_take :: "event list" where
  "second_take =
     [StartCall, Granted 1 ''Audio/OGG'' NoFault, DataAvailable 1 chunk_example, PauseCall,
      StopCall, DataAvailable 1 chunk_example2]"

text \<open>
  A fragment with no bytes, and a first session whose \<^verbatim>\<open>onStop\<close> throws when the
  completion event is handled.
\<close>

definition empty_chunk :: Blob where
  "empty_chunk = \<lparr>blob_bytes = [], blob_type = ''audio/webm''\<rparr>"

definition throwing_take :: "event list" where
  "throwing_take =
     [StartCall, Granted 1 ''audio/webm'' NoFault, StopCall, DataAvailable 0 chunk_example,
      StopEvent 0 (Throws OtherError)]"

text \<open>A pending-finalize window: \<^verbatim>\<open>stop()\<close>, then one fragment.\<close>

definition stop_window :: "event list" where
  "stop_window = [StopCall, DataAvailable 0 chunk_example]"

section \<open>Basic facts about the commands\<close>

lemmas hook_defs =
  reset_def startRecording_def startRecording_catch_def startRecording_granted_def
  ondataavailable_def onstop_def stopRecording_def pauseRecording_def resumeRecording_def
  uncaught_def uncaught_thrown_def request_settled_def stop_event_fired_def deref_def
  new_Blob_def normalize_type_def ascii_lowercase_def
  new_MediaRecorder_def MediaRecorder_start_def MediaRecorder_stop_def
  MediaRecorder_pause_def MediaRecorder_resume_def live_track_def track_stop_def init_def
  Let_def

lemma recording_example_eq:
  "recording_example =
     \<lparr>status = recording, mediaBlobUrl = None, mediaRecorderRef = Some 0, audioChunksRef = [],
      streamRef = Some 0,
      recorders = [\<lparr>rec_state = rs_recording, rec_stream = 0, mimeType = ''audio/webm'',
                    finalizing = False\<rparr>],
      streams = [[\<lparr>track_ended = False, stop_calls = 0\<rparr>]], object_urls = [],
      pending_requests = 0, onStop_given = True, onStop_calls = []\<rparr>"
  by (simp add: recording_example_def pending_example_def hook_defs)

lemma pauseRecording_noop: "status s \<noteq> recording \<Longrightarrow> pauseRecording s = Inr s"
  by (simp add: pauseRecording_def split: option.splits prod.splits)

lemma resumeRecording_noop: "status s \<noteq> paused \<Longrightarrow> resumeRecording s = Inr s"
  by (simp add: resumeRecording_def split: option.splits prod.splits)

lemma status_stopRecording: "status (stopRecording s) = status s"
  by (simp add: stopRecording_def Let_def split: option.splits prod.splits)

lemma status_uncaught_pause:
  "status (uncaught s (pauseRecording s)) \<noteq> stopped \<or> status s = stopped"
  by (auto simp: uncaught_def pauseRecording_def MediaRecorder_pause_def
      split: option.splits prod.splits sum.splits if_splits)

lemma status_uncaught_resume:
  "status (uncaught s (resumeRecording s)) \<noteq> stopped \<or> status s = stopped"
  by (auto simp: uncaught_def resumeRecording_def MediaRecorder_resume_def
      split: option.splits prod.splits sum.splits if_splits)

lemma status_catch: "status (startRecording_catch err s) \<noteq> stopped"
  by (simp add: startRecording_catch_def split: js_error.splits)

lemma status_granted: "status (startRecording_granted n mime fault s) \<noteq> stopped"
  by (simp add: startRecording_granted_def Let_def status_catch split: grant_fault.splits)

lemma stopped_only_by_stop_event:
  assumes "fire e s = Some s'" and "status s' = stopped" and "status s \<noteq> stopped"
  shows "\<exists>rid cb. e = StopEvent rid cb"
proof (cases e)
  case StartCall
  with assms show ?thesis by (auto simp: startRecording_def)
next
  case StopCall
  with assms show ?thesis by (auto simp: status_stopRecording)
next
  case PauseCall
  with assms status_uncaught_pause [of s] show ?thesis by auto
next
  case ResumeCall
  with assms status_uncaught_resume [of s] show ?thesis by auto
next
  case ResetCall
  with assms show ?thesis by (auto simp: reset_def)
next
  case (Granted n mime fault)
  with assms status_granted show ?thesis by (auto split: if_splits)
next
  case (Rejected err)
  with assms status_catch show ?thesis by (auto split: if_splits)
next
  case (DataAvailable rid d)
  with assms show ?thesis by (auto simp: ondataavailable_def split: if_splits)
next
  case (StopEvent rid cb)
  then show ?thesis by simp
qed

lemma status_in_window:
  assumes "fire e s = Some s'" and "in_window e"
  shows "status s' = status s"
  using assms
  by (cases e) (auto simp: startRecording_def status_stopRecording ondataavailable_def
      split: if_splits)

lemma status_run_in_window:
  "run es s = Some s' \<Longrightarrow> list_all in_window es \<Longrightarrow> status s' = status s"
proof (induction es arbitrary: s)
  case Nil
  then show ?case by simp
next
  case (Cons e es)
  from Cons.prems(1) obtain t where t: "fire e s = Some t" and rest: "run es t = Some s'"
    by (auto split: option.splits)
  from Cons.prems(2) have "in_window e" "list_all in_window es" by simp_all
  with status_in_window [OF t] Cons.IH [OF rest] show ?case by simp
qed

text \<open>A trace with no \<^verbatim>\<open>stop\<close> event never makes the status \<^verbatim>\<open>stopped\<close>.\<close>

lemma not_stopped_without_stop_event:
  "run es s = Some s' \<Longrightarrow> status s \<noteq> stopped \<Longrightarrow> list_all (\<lambda>e. \<not> is_stop_event e) es
   \<Longrightarrow> status s' \<noteq> stopped"
proof (induction es arbitrary: s)
  case Nil
  then show ?case by simp
next
  case (Cons e es)
  from Cons.prems(1) obtain t where t: "fire e s = Some t" and rest: "run es t = Some s'"
    by (auto split: option.splits)
  have "status t \<noteq> stopped"
  proof
    assume "status t = stopped"
    with t Cons.prems(2) obtain rid cb where "e = StopEvent rid cb"
      using stopped_only_by_stop_event by blast
    with Cons.prems(3) show False by simp
  qed
  with Cons.IH [OF rest] Cons.prems(3) show ?case by simp
qed

subsection \<open>An invariant of the reachable states\<close>

lemma hook_inv_init: "hook_inv (init given)"
  by (simp add: hook_inv_def init_def)

lemma hook_inv_reset: "hook_inv s \<Longrightarrow> hook_inv (reset s)"
  by (simp add: hook_inv_def reset_def current_recorder_def)

lemma hook_inv_startRecording: "hook_inv s \<Longrightarrow> hook_inv (startRecording s)"
  by (simp add: hook_inv_def startRecording_def current_recorder_def)

lemma hook_inv_request_settled: "hook_inv s \<Longrightarrow> hook_inv (request_settled s)"
  by (simp add: hook_inv_def request_settled_def current_recorder_def)

lemma hook_inv_catch: "hook_inv s \<Longrightarrow> hook_inv (startRecording_catch err s)"
  by (cases err) (simp_all add: hook_inv_def startRecording_catch_def current_recorder_def)

lemma hook_inv_granted: "hook_inv s \<Longrightarrow> hook_inv (startRecording_granted n mime fault s)"
  by (cases fault; cases "case fault of CtorThrows e \<Rightarrow> e | StartThrows e \<Rightarrow> e | _ \<Rightarrow> OtherError")
     (simp_all add: hook_inv_def startRecording_granted_def startRecording_catch_def Let_def
        current_recorder_def MediaRecorder_start_def new_MediaRecorder_def nth_append)

lemma hook_inv_ondataavailable: "hook_inv s \<Longrightarrow> hook_inv (ondataavailable d s)"
  by (simp add: hook_inv_def ondataavailable_def current_recorder_def)

lemma hook_inv_stopRecording: "hook_inv s \<Longrightarrow> hook_inv (stopRecording s)"
  by (auto simp: hook_inv_def stopRecording_def Let_def deref_def current_recorder_def
        MediaRecorder_stop_def split: option.splits if_splits)

lemma hook_inv_pause: "hook_inv s \<Longrightarrow> hook_inv (uncaught s (pauseRecording s))"
  by (auto simp: hook_inv_def uncaught_def pauseRecording_def deref_def MediaRecorder_pause_def
        current_recorder_def split: option.splits if_splits sum.splits)

lemma hook_inv_resume: "hook_inv s \<Longrightarrow> hook_inv (uncaught s (resumeRecording s))"
  by (auto simp: hook_inv_def uncaught_def resumeRecording_def deref_def MediaRecorder_resume_def
        current_recorder_def split: option.splits if_splits sum.splits)

lemma hook_inv_stop_event:
  assumes "hook_inv s" and "rid < length (recorders s)"
  shows "hook_inv (uncaught_thrown (onstop cb (stop_event_fired rid s)))"
  using assms
  by (cases cb)
     (auto simp: hook_inv_def uncaught_thrown_def onstop_def deref_def Let_def
        stop_event_fired_def current_recorder_def split: option.splits if_splits)

lemma hook_inv_fire: "fire e s = Some s' \<Longrightarrow> hook_inv s \<Longrightarrow> hook_inv s'"
  by (cases e)
     (auto split: if_splits
       intro: hook_inv_reset hook_inv_startRecording hook_inv_request_settled hook_inv_catch
         hook_inv_granted hook_inv_ondataavailable hook_inv_stopRecording hook_inv_pause
         hook_inv_resume hook_inv_stop_event)

lemma reachable_inv: "reachable s \<Longrightarrow> hook_inv s"
  by (induction rule: reachable.induct) (auto intro: hook_inv_init hook_inv_fire)

lemma reachable_run: "run es s = Some s' \<Longrightarrow> reachable s \<Longrightarrow> reachable s'"
  by (induction es arbitrary: s) (auto split: option.splits intro: reachable_fire)

lemma run_append:
  "run (xs @ ys) s = (case run xs s of None \<Rightarrow> None | Some t \<Rightarrow> run ys t)"
  by (induction xs arbitrary: s) (auto split: option.splits)

subsection \<open>What \<^verbatim>\<open>stopRecording\<close> does to the streams\<close>

lemma stopRecording_streams:
  assumes "hook_inv s" and "status s = recording \<or> status s = paused"
  shows "streams s \<noteq> [] \<and> recorders s \<noteq> [] \<and>
         streams (stopRecording s) =
           (streams s)[length (streams s) - 1 := map track_stop (streams s ! (length (streams s) - 1))] \<and>
         streamRef (stopRecording s) = streamRef s \<and>
         mediaRecorderRef (stopRecording s) = mediaRecorderRef s"
  using assms
  by (auto simp: hook_inv_def stopRecording_def deref_def Let_def)

lemma reachable_recording_example: "reachable recording_example"
proof -
  have "run [StartCall, Granted 1 ''audio/webm'' NoFault] (init True) = Some recording_example"
    by (simp add: recording_example_eq hook_defs)
  then show ?thesis using reachable_run reachable_init by blast
qed

subsection \<open>The example states, and a granted start\<close>

lemma run_stopped_example:
  "run [StopCall, DataAvailable 0 chunk_example, StopEvent 0 Returns] recording_example
     = Some stopped_example"
  by (simp add: recording_example_eq stopped_example_def chunk_example_def hook_defs)

lemma reachable_stopped_example: "reachable stopped_example"
  using run_stopped_example reachable_recording_example reachable_run by blast

lemma granted_NoFault:
  "startRecording_granted n mime NoFault s =
     s\<lparr>streams := streams s @ [replicate n live_track], streamRef := Some (length (streams s)),
       recorders := recorders s @ [(new_MediaRecorder (length (streams s)) mime)\<lparr>rec_state := rs_recording\<rparr>],
       mediaRecorderRef := Some (length (recorders s)), status := recording\<rparr>"
  by (simp add: startRecording_granted_def Let_def MediaRecorder_start_def)

lemma stopRecording_frame:
  "pending_requests (stopRecording s) = pending_requests s \<and>
   length (streams (stopRecording s)) = length (streams s) \<and>
   length (recorders (stopRecording s)) = length (recorders s)"
  by (simp add: stopRecording_def Let_def deref_def split: option.splits)

subsection \<open>Finalizing\<close>

lemma run_paused_example:
  "run [DataAvailable 0 chunk_example, PauseCall] recording_example = Some paused_example"
  by (simp add: recording_example_eq paused_example_def chunk_example_def hook_defs)

lemma reachable_paused_example: "reachable paused_example"
  using run_paused_example reachable_recording_example reachable_run by blast

lemma fire_StopEvent:
  assumes "hook_inv t" and "rid < length (recorders t)" and "finalizing (recorders t ! rid)"
  shows "\<exists>t'. fire (StopEvent rid cb) t = Some t' \<and>
           mediaBlobUrl t' = Some (length (object_urls t)) \<and>
           object_urls t' =
             object_urls t @ [new_Blob (audioChunksRef t) (mimeType (current_recorder t))] \<and>
           onStop_calls t' = onStop_calls t @
             (if onStop_given t
              then [new_Blob (audioChunksRef t) (mimeType (current_recorder t))] else []) \<and>
           (clears (onStop_given t) (StopEvent rid cb) \<longrightarrow>
              status t' = stopped \<and> audioChunksRef t' = []) \<and>
           (\<not> clears (onStop_given t) (StopEvent rid cb) \<longrightarrow>
              status t' = status t \<and> audioChunksRef t' = audioChunksRef t)"
  using assms
  by (cases cb)
     (auto simp: hook_inv_def onstop_def deref_def stop_event_fired_def uncaught_thrown_def
        current_recorder_def Let_def nth_list_update)

lemma deliver:
  assumes "r < length (recorders s)"
    and "rec_state (recorders s ! r) \<noteq> rs_inactive \<or> finalizing (recorders s ! r)"
  shows "run (map (DataAvailable r) fs) s = Some (s\<lparr>audioChunksRef := audioChunksRef s @ fs\<rparr>)"
  using assms
proof (induction fs arbitrary: s)
  case Nil
  then show ?case by simp
next
  case (Cons f fs)
  let ?t = "ondataavailable f s"
  have t: "recorders ?t = recorders s" by (simp add: ondataavailable_def)
  from Cons.prems have "fire (DataAvailable r f) s = Some ?t" by auto
  moreover from Cons.IH [of ?t] Cons.prems t
  have "run (map (DataAvailable r) fs) ?t = Some (?t\<lparr>audioChunksRef := audioChunksRef ?t @ fs\<rparr>)"
    by simp
  ultimately show ?case by (simp add: ondataavailable_def)
qed

lemma hook_inv_chunks: "hook_inv (s\<lparr>audioChunksRef := cs\<rparr>) = hook_inv s"
  by (simp add: hook_inv_def current_recorder_def)

lemma stopRecording_finalizing:
  assumes "hook_inv s" and "status s = recording \<or> status s = paused"
    and "rec_state (current_recorder s) \<noteq> rs_inactive \<or> finalizing (current_recorder s)"
  shows "recorders (stopRecording s) \<noteq> [] \<and>
         length (recorders (stopRecording s)) = length (recorders s) \<and>
         finalizing (current_recorder (stopRecording s)) \<and>
         mimeType (current_recorder (stopRecording s)) = mimeType (current_recorder s) \<and>
         audioChunksRef (stopRecording s) = audioChunksRef s \<and>
         object_urls (stopRecording s) = object_urls s \<and>
         onStop_calls (stopRecording s) = onStop_calls s \<and>
         onStop_given (stopRecording s) = onStop_given s"
  using assms
  by (auto simp: hook_inv_def stopRecording_def deref_def Let_def current_recorder_def
        MediaRecorder_stop_def split: option.splits)

lemma finalize_after:
  assumes inv: "hook_inv t" and ne: "recorders t \<noteq> []"
    and fin: "finalizing (current_recorder t)"
  shows "\<exists>t'. run (map (DataAvailable (length (recorders t) - 1)) fs @
                    [StopEvent (length (recorders t) - 1) cb]) t = Some t' \<and>
           mediaBlobUrl t' = Some (length (object_urls t)) \<and>
           object_urls t' =
             object_urls t @ [new_Blob (audioChunksRef t @ fs) (mimeType (current_recorder t))] \<and>
           onStop_calls t' = onStop_calls t @
             (if onStop_given t
              then [new_Blob (audioChunksRef t @ fs) (mimeType (current_recorder t))] else []) \<and>
           ((onStop_given t \<longrightarrow> cb = Returns) \<longrightarrow>
              status t' = stopped \<and> audioChunksRef t' = [])"
proof -
  let ?r = "length (recorders t) - 1"
  let ?u = "t\<lparr>audioChunksRef := audioChunksRef t @ fs\<rparr>"
  from ne have lt: "?r < length (recorders t)" by simp
  from fin have fin': "finalizing (recorders t ! ?r)" by (simp add: current_recorder_def)
  from deliver [OF lt, of fs] fin'
  have d: "run (map (DataAvailable ?r) fs) t = Some ?u" by simp
  have u: "hook_inv ?u" "?r < length (recorders ?u)" "finalizing (recorders ?u ! ?r)"
    using inv lt fin' by (simp_all add: hook_inv_chunks)
  from fire_StopEvent [OF u, of cb] obtain t' where
    f: "fire (StopEvent ?r cb) ?u = Some t'" and
    p: "mediaBlobUrl t' = Some (length (object_urls ?u))"
      "object_urls t' = object_urls ?u @ [new_Blob (audioChunksRef ?u) (mimeType (current_recorder ?u))]"
      "onStop_calls t' = onStop_calls ?u @
         (if onStop_given ?u
          then [new_Blob (audioChunksRef ?u) (mimeType (current_recorder ?u))] else [])"
      "clears (onStop_given ?u) (StopEvent ?r cb) \<longrightarrow> status t' = stopped \<and> audioChunksRef t' = []"
    by blast
  from d f have "run (map (DataAvailable ?r) fs @ [StopEvent ?r cb]) t = Some t'"
    by (simp add: run_append)
  with p show ?thesis by (simp add: current_recorder_def)
qed

subsection \<open>The fragment buffer along a trace\<close>

lemma chunks_catch: "audioChunksRef (startRecording_catch err s) = audioChunksRef s"
  by (cases err) (simp_all add: startRecording_catch_def)

lemma chunks_granted: "audioChunksRef (startRecording_granted n mime fault s) = audioChunksRef s"
  by (cases fault) (simp_all add: startRecording_granted_def Let_def chunks_catch)

lemma chunks_stopRecording: "audioChunksRef (stopRecording s) = audioChunksRef s"
  by (simp add: stopRecording_def Let_def split: option.splits prod.splits)

lemma chunks_pause: "audioChunksRef (uncaught s (pauseRecording s)) = audioChunksRef s"
  by (simp add: uncaught_def pauseRecording_def split: option.splits prod.splits sum.splits)

lemma chunks_resume: "audioChunksRef (uncaught s (resumeRecording s)) = audioChunksRef s"
  by (simp add: uncaught_def resumeRecording_def split: option.splits prod.splits sum.splits)

lemma given_fire: "fire e s = Some s' \<Longrightarrow> onStop_given s' = onStop_given s"
  by (cases e)
     (auto simp: startRecording_def reset_def ondataavailable_def request_settled_def
        stopRecording_def pauseRecording_def resumeRecording_def uncaught_def onstop_def
        uncaught_thrown_def stop_event_fired_def startRecording_catch_def
        startRecording_granted_def Let_def
      split: if_splits option.splits prod.splits sum.splits js_error.splits grant_fault.splits
        callback_result.splits)

lemma given_run: "run es s = Some s' \<Longrightarrow> onStop_given s' = onStop_given s"
  by (induction es arbitrary: s) (auto split: option.splits dest: given_fire)

lemma chunks_stop_event_thrown:
  assumes "onStop_given s" and "cb \<noteq> Returns"
  shows "audioChunksRef (uncaught_thrown (onstop cb (stop_event_fired rid s))) = audioChunksRef s"
  using assms
  by (cases cb)
     (simp_all add: uncaught_thrown_def onstop_def stop_event_fired_def Let_def
        split: option.splits prod.splits)

lemma chunks_fire:
  assumes "fire e s = Some s'" and "\<not> clears (onStop_given s) e"
  shows "audioChunksRef s' = audioChunksRef s @ fragments_of [e]"
proof (cases e)
  case StartCall
  with assms show ?thesis by (auto simp: startRecording_def)
next
  case StopCall
  with assms show ?thesis by (auto simp: chunks_stopRecording)
next
  case PauseCall
  with assms show ?thesis by (auto simp: chunks_pause)
next
  case ResumeCall
  with assms show ?thesis by (auto simp: chunks_resume)
next
  case ResetCall
  with assms show ?thesis by simp
next
  case (Granted n mime fault)
  with assms show ?thesis
    by (auto simp: chunks_granted request_settled_def split: if_splits)
next
  case (Rejected err)
  with assms show ?thesis
    by (auto simp: chunks_catch request_settled_def split: if_splits)
next
  case (DataAvailable rid d)
  with assms show ?thesis by (auto simp: ondataavailable_def split: if_splits)
next
  case (StopEvent rid cb)
  with assms have "onStop_given s" "cb \<noteq> Returns" by simp_all
  from chunks_stop_event_thrown [OF this, of rid] assms(1) StopEvent show ?thesis
    by (auto split: if_splits)
qed

lemma fragments_of_Cons: "fragments_of (e # es) = fragments_of [e] @ fragments_of es"
  by (cases e) simp_all

lemma chunks_run:
  "run es s = Some s' \<Longrightarrow> list_all (\<lambda>e. \<not> clears (onStop_given s) e) es
   \<Longrightarrow> audioChunksRef s' = audioChunksRef s @ fragments_of es"
proof (induction es arbitrary: s)
  case Nil
  then show ?case by simp
next
  case (Cons e es)
  from Cons.prems(1) obtain t where t: "fire e s = Some t" and rest: "run es t = Some s'"
    by (auto split: option.splits)
  from Cons.prems(2) have ne: "\<not> clears (onStop_given s) e"
    and nes: "list_all (\<lambda>e. \<not> clears (onStop_given s) e) es"
    by simp_all
  from given_fire [OF t] nes have nes': "list_all (\<lambda>e. \<not> clears (onStop_given t) e) es"
    by simp
  from chunks_fire [OF t ne] Cons.IH [OF rest nes']
  have "audioChunksRef s' = audioChunksRef s @ fragments_of [e] @ fragments_of es" by simp
  then show ?case by (subst fragments_of_Cons) simp
qed

lemma cleared_fire:
  assumes "hook_inv s" and "fire e s = Some s'" and "clears (onStop_given s) e"
  shows "audioChunksRef s' = []"
proof (cases e)
  case ResetCall
  with assms show ?thesis by (auto simp: reset_def)
next
  case (StopEvent rid cb)
  with assms(2) have en: "rid < length (recorders s)" "finalizing (recorders s ! rid)"
    by (auto split: if_splits)
  from fire_StopEvent [OF assms(1) en, of cb] assms(2,3) StopEvent show ?thesis by auto
qed (use assms in auto)

lemma cleared_after:
  assumes "run pre (init given) = Some s" and "pre = [] \<or> clears given (last pre)"
  shows "audioChunksRef s = []"
proof (cases "pre = []")
  case True
  with assms(1) have "s = init given" by simp
  then show ?thesis by (simp add: init_def)
next
  case False
  with assms(2) have cl: "clears given (last pre)" by simp
  from False have "pre = butlast pre @ [last pre]" by simp
  with assms(1) have "run (butlast pre @ [last pre]) (init given) = Some s" by simp
  then obtain s0 where s0: "run (butlast pre) (init given) = Some s0"
    and f: "fire (last pre) s0 = Some s"
    by (auto simp: run_append split: option.splits)
  from s0 have "reachable s0" using reachable_run reachable_init by blast
  then have inv: "hook_inv s0" by (rule reachable_inv)
  from given_run [OF s0] have "onStop_given s0 = given" by (simp add: init_def)
  with cl have "clears (onStop_given s0) (last pre)" by simp
  from cleared_fire [OF inv f this] show ?thesis .
qed

lemma run_first_take: "run first_take (init True) = Some stopped_example"
  by (simp add: first_take_def stopped_example_def chunk_example_def hook_defs)

lemma run_second_take: "run (second_take @ [StopEvent 1 Returns]) stopped_example \<noteq> None"
  by (simp add: second_take_def stopped_example_def chunk_example_def chunk_example2_def
      hook_defs)

lemma second_take_mimeType:
  "map_option (\<lambda>s. mimeType (current_recorder s)) (run second_take stopped_example)
     = Some ''Audio/OGG''"
  by (simp add: second_take_def stopped_example_def chunk_example_def chunk_example2_def
      current_recorder_def hook_defs)

lemma run_stop_window:
  "run (stop_window @ [StopEvent 0 Returns]) recording_example \<noteq> None"
  by (simp add: stop_window_def recording_example_eq chunk_example_def hook_defs)

lemma clears_cases: "clears given e \<Longrightarrow> is_stop_event e \<or> e = ResetCall"
  by (cases e) simp_all

section \<open>The claims\<close>

text \<open>
  C1, as stated, fails. The handler calls the caller's \<^verbatim>\<open>onStop\<close> before it empties the
  buffer and sets the status, with nothing to catch an exception. When \<^verbatim>\<open>onStop\<close>
  throws, the completion event leaves the fragment in the buffer and the status at
  \<^verbatim>\<open>recording\<close>; the artifact of the next session then holds the bytes 1, 2 of the earlier
  session before its own byte 3.
\<close>

theorem throwing_callback_keeps_buffer_counterexample:
  "map_option (\<lambda>s. (status s, map blob_bytes (audioChunksRef s), map blob_bytes (onStop_calls s)))
     (run throwing_take (init True))
     = Some (recording, [[1, 2]], [[1, 2]]) \<and>
   map_option (\<lambda>s. (status s, map blob_bytes (object_urls s)))
     (run (throwing_take @
           [StartCall, Granted 1 ''audio/webm'' NoFault, StopCall, DataAvailable 1 chunk_example2,
            StopEvent 1 Returns]) (init True))
     = Some (stopped, [[1, 2], [1, 2, 3]])"
  by (simp add: throwing_take_def chunk_example_def chunk_example2_def hook_defs)

text \<open>
  C1, amended. Take any run of the hook from its initial state in which the last
  \<^verbatim>\<open>reset()\<close> or completion event, if there is one, is a \<^verbatim>\<open>reset()\<close> or a completion
  event whose \<^verbatim>\<open>onStop\<close> was absent or returned, and let \<open>es\<close> be the events that follow
  it (the whole run, when there was none), up to the next completion event. Handling that
  completion event registers an artifact
  whose bytes are the concatenation, in arrival order, of the fragments delivered in
  \<open>es\<close>, and whose type is the MIME type of the current recorder as \<^verbatim>\<open>new Blob\<close>
  normalises it; \<^verbatim>\<open>mediaBlobUrl\<close> refers to it, and \<^verbatim>\<open>onStop\<close>, when the caller gave one,
  is invoked once with that blob. When \<^verbatim>\<open>onStop\<close> is absent or returns, the fragment
  buffer is then emptied and the status becomes \<^verbatim>\<open>stopped\<close>.
\<close>

theorem artifact_is_concatenation:
  assumes "run pre (init given) = Some s" and "pre = [] \<or> clears given (last pre)"
    and "run es s = Some s'" and "list_all (\<lambda>e. \<not> is_stop_event e \<and> e \<noteq> ResetCall) es"
    and "fire (StopEvent rid cb) s' = Some s''"
  shows "\<exists>blob. blob_bytes blob = concat (map blob_bytes (fragments_of es)) \<and>
           blob_type blob = normalize_type (mimeType (current_recorder s')) \<and>
           object_urls s'' = object_urls s' @ [blob] \<and>
           mediaBlobUrl s'' = Some (length (object_urls s')) \<and>
           onStop_calls s'' = onStop_calls s' @ (if given then [blob] else []) \<and>
           ((given \<longrightarrow> cb = Returns) \<longrightarrow> audioChunksRef s'' = [] \<and> status s'' = stopped)"
proof -
  let ?blob = "new_Blob (audioChunksRef s') (mimeType (current_recorder s'))"
  from assms(1) have rs: "reachable s" using reachable_run reachable_init by blast
  with assms(3) have "reachable s'" using reachable_run by blast
  then have inv: "hook_inv s'" by (rule reachable_inv)
  from given_run [OF assms(1)] have gs: "onStop_given s = given" by (simp add: init_def)
  with given_run [OF assms(3)] have given: "onStop_given s' = given" by simp
  from assms(4) have nc: "list_all (\<lambda>e. \<not> clears (onStop_given s) e) es"
    by (auto simp: list_all_iff dest: clears_cases)
  from cleared_after [OF assms(1,2)] chunks_run [OF assms(3) nc]
  have chunks: "audioChunksRef s' = fragments_of es" by simp
  from assms(5) have en: "rid < length (recorders s')" "finalizing (recorders s' ! rid)"
    by (auto split: if_splits)
  from fire_StopEvent [OF inv en, of cb] assms(5)
  have p: "mediaBlobUrl s'' = Some (length (object_urls s'))"
    "object_urls s'' = object_urls s' @ [?blob]"
    "onStop_calls s'' = onStop_calls s' @ (if onStop_given s' then [?blob] else [])"
    "clears (onStop_given s') (StopEvent rid cb) \<longrightarrow> status s'' = stopped \<and> audioChunksRef s'' = []"
    by auto
  have b: "blob_bytes ?blob = concat (map blob_bytes (fragments_of es))"
    "blob_type ?blob = normalize_type (mimeType (current_recorder s'))"
    by (simp_all add: new_Blob_def chunks)
  from p b given show ?thesis by (intro exI [of _ ?blob]) simp
qed

theorem artifact_is_concatenation_witness:
  "run first_take (init True) = Some stopped_example \<and>
   (first_take = [] \<or> clears True (last first_take)) \<and>
   list_all (\<lambda>e. \<not> is_stop_event e \<and> e \<noteq> ResetCall) second_take \<and>
   (\<exists>s' s'' blob. run second_take stopped_example = Some s' \<and>
      fire (StopEvent 1 Returns) s' = Some s'' \<and>
      blob_bytes blob = [1, 2, 3] \<and> blob_type blob = ''audio/ogg'' \<and>
      object_urls s'' = object_urls s' @ [blob] \<and>
      mediaBlobUrl s'' = Some (length (object_urls s')) \<and>
      onStop_calls s'' = onStop_calls s' @ [blob] \<and>
      audioChunksRef s'' = [] \<and> status s'' = stopped)"
proof -
  have c: "first_take = [] \<or> clears True (last first_take)" by (simp add: first_take_def)
  have n: "list_all (\<lambda>e. \<not> is_stop_event e \<and> e \<noteq> ResetCall) second_take"
    by (simp add: second_take_def)
  from run_second_take obtain s' s'' where
    r: "run second_take stopped_example = Some s'"
    and f: "fire (StopEvent 1 Returns) s' = Some s''"
    by (auto simp: run_append split: option.splits)
  have fr: "concat (map blob_bytes (fragments_of second_take)) = [1, 2, 3]"
    by (simp add: second_take_def chunk_example_def chunk_example2_def)
  from second_take_mimeType r have "mimeType (current_recorder s') = ''Audio/OGG''" by simp
  then have ty: "normalize_type (mimeType (current_recorder s')) = ''audio/ogg''"
    by (simp add: normalize_type_def ascii_lowercase_def)
  from artifact_is_concatenation [OF run_first_take c r n f] obtain blob where
    p: "blob_bytes blob = concat (map blob_bytes (fragments_of second_take))"
      "blob_type blob = normalize_type (mimeType (current_recorder s'))"
      "onStop_calls s'' = onStop_calls s' @ (if True then [blob] else [])"
      "(True \<longrightarrow> Returns = Returns) \<longrightarrow> audioChunksRef s'' = [] \<and> status s'' = stopped"
    and q: "object_urls s'' = object_urls s' @ [blob]"
      "mediaBlobUrl s'' = Some (length (object_urls s'))"
    by blast
  from p fr ty have p': "blob_bytes blob = [1, 2, 3]" "blob_type blob = ''audio/ogg''"
    "onStop_calls s'' = onStop_calls s' @ [blob]" "audioChunksRef s'' = []" "status s'' = stopped"
    by simp_all
  from run_first_take c n r f q p' show ?thesis by blast
qed

text \<open>
  C2, as stated, fails. After \<^verbatim>\<open>start()\<close> has been granted a stream, \<^verbatim>\<open>reset()\<close> leaves
  \<^verbatim>\<open>Recording\<close> for \<^verbatim>\<open>Idle\<close> with \<^verbatim>\<open>streamRef\<close> still set and the track of the stream
  still live, \<^verbatim>\<open>stop()\<close> never called on it: the handle is defined outside
  \<^verbatim>\<open>Recording\<close>/\<^verbatim>\<open>Paused\<close>, and the stream has been released zero times.
\<close>

theorem reset_leaves_stream_open_counterexample:
  "run [StartCall, Granted 1 ''audio/webm'' NoFault] (init True) = Some recording_example \<and>
   status recording_example = recording \<and>
   fire ResetCall recording_example = Some (reset recording_example) \<and>
   status (reset recording_example) = idle \<and>
   streamRef (reset recording_example) = Some 0 \<and>
   streams (reset recording_example) = [[\<lparr>track_ended = False, stop_calls = 0\<rparr>]]"
  by (simp add: recording_example_eq hook_defs)

text \<open>
  C2, amended. In every reachable state whose status is \<^verbatim>\<open>recording\<close> or \<^verbatim>\<open>paused\<close>,
  \<^verbatim>\<open>streamRef\<close> and \<^verbatim>\<open>mediaRecorderRef\<close> are set and point to existing objects (the
  converse does not hold: the refs are never cleared). A call of \<^verbatim>\<open>stop()\<close> in such a
  state calls \<^verbatim>\<open>stop()\<close> exactly once on every track of the stream \<^verbatim>\<open>streamRef\<close> holds,
  which ends them, and touches no other stream; \<^verbatim>\<open>streamRef\<close> and the status stay as
  they were.
\<close>

theorem stop_releases_held_stream:
  assumes "reachable s" and "status s = recording \<or> status s = paused"
  shows "\<exists>st r. streamRef s = Some st \<and> st < length (streams s) \<and>
           mediaRecorderRef s = Some r \<and> r < length (recorders s) \<and>
           length (streams (stopRecording s)) = length (streams s) \<and>
           length (streams (stopRecording s) ! st) = length (streams s ! st) \<and>
           (\<forall>i < length (streams s ! st).
              stop_calls (streams (stopRecording s) ! st ! i) = Suc (stop_calls (streams s ! st ! i)) \<and>
              track_ended (streams (stopRecording s) ! st ! i)) \<and>
           (\<forall>j < length (streams s). j \<noteq> st \<longrightarrow> streams (stopRecording s) ! j = streams s ! j) \<and>
           streamRef (stopRecording s) = Some st \<and>
           status (stopRecording s) = status s"
proof -
  from assms(1) have inv: "hook_inv s" by (rule reachable_inv)
  let ?st = "length (streams s) - 1" and ?r = "length (recorders s) - 1"
  from stopRecording_streams [OF inv assms(2)]
  have ne: "streams s \<noteq> []" "recorders s \<noteq> []"
    and upd: "streams (stopRecording s) = (streams s)[?st := map track_stop (streams s ! ?st)]"
    and ref: "streamRef (stopRecording s) = streamRef s"
    by simp_all
  from inv ne have refs: "streamRef s = Some ?st" "mediaRecorderRef s = Some ?r"
    by (simp_all add: hook_inv_def)
  from ne have lt: "?st < length (streams s)" "?r < length (recorders s)" by simp_all
  have tracks: "\<forall>i < length (streams s ! ?st).
      stop_calls (streams (stopRecording s) ! ?st ! i) = Suc (stop_calls (streams s ! ?st ! i)) \<and>
      track_ended (streams (stopRecording s) ! ?st ! i)"
    using lt by (simp add: upd track_stop_def)
  have others: "\<forall>j < length (streams s). j \<noteq> ?st \<longrightarrow> streams (stopRecording s) ! j = streams s ! j"
    by (simp add: upd)
  have len: "length (streams (stopRecording s)) = length (streams s)"
    "length (streams (stopRecording s) ! ?st) = length (streams s ! ?st)"
    using lt by (simp_all add: upd)
  from refs lt len tracks others ref status_stopRecording [of s]
  show ?thesis by (intro exI [of _ ?st] exI [of _ ?r]) simp
qed

theorem stop_releases_held_stream_witness:
  "reachable recording_example \<and> status recording_example = recording \<and>
   streamRef recording_example = Some 0 \<and>
   stop_calls (streams recording_example ! 0 ! 0) = 0 \<and>
   stop_calls (streams (stopRecording recording_example) ! 0 ! 0) = 1 \<and>
   track_ended (streams (stopRecording recording_example) ! 0 ! 0) \<and>
   status (stopRecording recording_example) = recording"
proof -
  have h: "status recording_example = recording \<or> status recording_example = paused"
    by (simp add: recording_example_eq)
  have e: "status recording_example = recording" "streamRef recording_example = Some 0"
    "stop_calls (streams recording_example ! 0 ! 0) = 0"
    "length (streams recording_example ! 0) = 1"
    by (simp_all add: recording_example_eq)
  from stop_releases_held_stream [OF reachable_recording_example h] e
    reachable_recording_example
  show ?thesis by auto
qed

text \<open>
  C3, as stated, fails. A session that has finished and is started again without
  \<^verbatim>\<open>reset()\<close> reaches status \<^verbatim>\<open>recording\<close> with \<^verbatim>\<open>mediaBlobUrl\<close> still holding the
  URL of the previous artifact: \<^verbatim>\<open>startRecording\<close> never touches \<^verbatim>\<open>mediaBlobUrl\<close>.
\<close>

theorem start_keeps_artifact_counterexample:
  "map_option (\<lambda>s. (status s, mediaBlobUrl s))
     (run [StartCall, Granted 1 ''audio/webm'' NoFault, StopCall, DataAvailable 0 chunk_example,
           StopEvent 0 Returns, StartCall, Granted 1 ''audio/webm'' NoFault] (init True))
   = Some (recording, Some 0)"
  by (simp add: hook_defs)

text \<open>
  C3, amended. In every reachable state with status \<^verbatim>\<open>stopped\<close> the artifact reference
  is defined: \<^verbatim>\<open>mediaBlobUrl\<close> holds a URL registered for a blob (the converse does not
  hold). \<^verbatim>\<open>reset()\<close> sets \<^verbatim>\<open>mediaBlobUrl\<close> to \<^verbatim>\<open>null\<close>; starting a new session, both
  the call of \<^verbatim>\<open>start()\<close> and the grant that follows it, leaves \<^verbatim>\<open>mediaBlobUrl\<close> as
  it was.
\<close>

theorem stopped_has_artifact:
  assumes "reachable s"
  shows "(status s = stopped \<longrightarrow> (\<exists>u. mediaBlobUrl s = Some u \<and> u < length (object_urls s))) \<and>
         mediaBlobUrl (reset s) = None \<and>
         mediaBlobUrl (startRecording s) = mediaBlobUrl s \<and>
         (\<forall>n mime fault. mediaBlobUrl (startRecording_granted n mime fault (request_settled s))
            = mediaBlobUrl s)"
proof -
  from assms have "hook_inv s" by (rule reachable_inv)
  then have a: "status s = stopped \<longrightarrow> (\<exists>u. mediaBlobUrl s = Some u \<and> u < length (object_urls s))"
    by (auto simp: hook_inv_def)
  have c: "mediaBlobUrl (startRecording_catch err t) = mediaBlobUrl t" for err t
    by (cases err) (simp_all add: startRecording_catch_def)
  have g: "mediaBlobUrl (startRecording_granted n mime fault (request_settled s)) = mediaBlobUrl s"
    for n mime fault
    by (cases fault) (simp_all add: startRecording_granted_def Let_def c request_settled_def
        MediaRecorder_start_def)
  from a g show ?thesis by (simp add: reset_def startRecording_def)
qed

theorem stopped_has_artifact_witness:
  "reachable stopped_example \<and> status stopped_example = stopped \<and>
   (\<exists>u. mediaBlobUrl stopped_example = Some u \<and> u < length (object_urls stopped_example)) \<and>
   mediaBlobUrl (reset stopped_example) = None \<and>
   mediaBlobUrl (startRecording_granted 1 ''audio/webm'' NoFault (request_settled stopped_example))
     = Some 0"
proof -
  have e: "status stopped_example = stopped" "mediaBlobUrl stopped_example = Some 0"
    by (simp_all add: stopped_example_def)
  from stopped_has_artifact [OF reachable_stopped_example] e reachable_stopped_example
  show ?thesis by auto
qed

text \<open>
  C4, as stated, fails. A \<^verbatim>\<open>start()\<close> followed by \<^verbatim>\<open>stop()\<close>, or by \<^verbatim>\<open>reset()\<close>,
  before the grant arrives still ends, when it arrives, in status \<^verbatim>\<open>recording\<close> with
  a stream opened and a recorder running on it.
\<close>

theorem stale_grant_counterexample:
  "map_option (\<lambda>s. (status s, length (streams s), map rec_state (recorders s)))
     (run [StartCall, StopCall, Granted 1 ''audio/webm'' NoFault] (init True))
     = Some (recording, 1, [rs_recording]) \<and>
   map_option (\<lambda>s. (status s, length (streams s), map rec_state (recorders s)))
     (run [StartCall, ResetCall, Granted 1 ''audio/webm'' NoFault] (init True))
     = Some (recording, 1, [rs_recording])"
  by (simp add: hook_defs)

text \<open>
  C4, amended. \<^verbatim>\<open>stop()\<close> and \<^verbatim>\<open>reset()\<close> do not cancel a pending \<^verbatim>\<open>start()\<close>: from
  any state, when the grant of a \<^verbatim>\<open>start()\<close> resolves after an intervening \<^verbatim>\<open>stop()\<close>
  or \<^verbatim>\<open>reset()\<close> (and the recorder is constructed and started without an exception),
  the hook takes the granted stream into \<^verbatim>\<open>streamRef\<close>, creates a recorder on it, starts
  it, and sets the status to \<^verbatim>\<open>recording\<close>.
\<close>

theorem stale_grant_starts_recording:
  assumes "c = StopCall \<or> c = ResetCall"
  shows "\<exists>s'. run [StartCall, c, Granted n mime NoFault] s = Some s' \<and>
           status s' = recording \<and>
           streamRef s' = Some (length (streams s)) \<and>
           length (streams s') = Suc (length (streams s)) \<and>
           last (streams s') = replicate n live_track \<and>
           mediaRecorderRef s' = Some (length (recorders s)) \<and>
           length (recorders s') = Suc (length (recorders s)) \<and>
           rec_state (last (recorders s')) = rs_recording \<and>
           rec_stream (last (recorders s')) = length (streams s)"
proof -
  from assms show ?thesis
  proof
    assume c: "c = StopCall"
    have p: "pending_requests (stopRecording (startRecording s)) = Suc (pending_requests s)"
      "length (streams (stopRecording (startRecording s))) = length (streams s)"
      "length (recorders (stopRecording (startRecording s))) = length (recorders s)"
      by (simp_all add: stopRecording_frame) (simp_all add: startRecording_def)
    from p show ?thesis
      by (simp add: c granted_NoFault request_settled_def new_MediaRecorder_def)
  next
    assume c: "c = ResetCall"
    show ?thesis
      by (simp add: c granted_NoFault request_settled_def new_MediaRecorder_def reset_def
          startRecording_def)
  qed
qed

theorem stale_grant_starts_recording_witness:
  "(StopCall = StopCall \<or> StopCall = ResetCall) \<and>
   (\<exists>s'. run [StartCall, StopCall, Granted 1 ''audio/webm'' NoFault] (init True) = Some s' \<and>
      status s' = recording \<and> streamRef s' = Some 0 \<and> length (streams s') = 1 \<and>
      mediaRecorderRef s' = Some 0 \<and> length (recorders s') = 1 \<and>
      rec_state (last (recorders s')) = rs_recording)"
proof -
  have h: "StopCall = StopCall \<or> StopCall = ResetCall" by simp
  have e: "streams (init True) = []" "recorders (init True) = []" by (simp_all add: init_def)
  from stale_grant_starts_recording [OF h, of 1 "''audio/webm''" "init True"]
  obtain s' where r: "run [StartCall, StopCall, Granted 1 ''audio/webm'' NoFault] (init True) = Some s'"
    and p: "status s' = recording" "rec_state (last (recorders s')) = rs_recording"
    and q: "streamRef s' = Some (length (streams (init True)))"
      "length (streams s') = Suc (length (streams (init True)))"
      "mediaRecorderRef s' = Some (length (recorders (init True)))"
      "length (recorders s') = Suc (length (recorders (init True)))"
    by blast
  from q e have q': "streamRef s' = Some 0" "length (streams s') = 1"
    "mediaRecorderRef s' = Some 0" "length (recorders s') = 1"
    by simp_all
  from h r p q' show ?thesis by blast
qed

text \<open>
  C5, as stated, fails. With \<^verbatim>\<open>reset()\<close> called between \<^verbatim>\<open>stop()\<close> and the completion
  event, the late event is handled like any other: the status ends as \<^verbatim>\<open>stopped\<close>, an
  artifact is registered and \<^verbatim>\<open>onStop\<close> is invoked with it.
\<close>

theorem stale_completion_counterexample:
  "map_option (\<lambda>s. (status s, mediaBlobUrl s, onStop_calls s))
     (run [StartCall, Granted 1 ''audio/webm'' NoFault, StopCall, ResetCall,
           DataAvailable 0 chunk_example, StopEvent 0 Returns] (init True))
   = Some (stopped, Some 0, [\<lparr>blob_bytes = [1, 2], blob_type = ''audio/webm''\<rparr>])"
  by (simp add: chunk_example_def hook_defs)

text \<open>
  C5, amended. Take a reachable state with status \<^verbatim>\<open>recording\<close> or \<^verbatim>\<open>paused\<close> whose
  recorder is still active (or has its completion event already due), and let
  \<^verbatim>\<open>reset()\<close> be called after \<^verbatim>\<open>stop()\<close> and before the completion event. The late
  completion event is still handled: an artifact is built from exactly the fragments that
  arrived after the \<^verbatim>\<open>reset()\<close>, typed as \<^verbatim>\<open>new Blob\<close> normalises the recorder's MIME
  type, its URL is stored in \<^verbatim>\<open>mediaBlobUrl\<close>, and \<^verbatim>\<open>onStop\<close>, when given, is invoked
  once with it. When \<^verbatim>\<open>onStop\<close> is absent or returns, the status ends as \<^verbatim>\<open>stopped\<close>
  and the fragment buffer is emptied.
\<close>

theorem late_completion_after_reset:
  assumes "reachable s" and "status s = recording \<or> status s = paused"
    and "rec_state (current_recorder s) \<noteq> rs_inactive \<or> finalizing (current_recorder s)"
  shows "\<exists>r s'. mediaRecorderRef s = Some r \<and>
           run ([StopCall, ResetCall] @ map (DataAvailable r) fs @ [StopEvent r cb]) s = Some s' \<and>
           mediaBlobUrl s' = Some (length (object_urls s)) \<and>
           object_urls s' = object_urls s @ [new_Blob fs (mimeType (current_recorder s))] \<and>
           blob_bytes (new_Blob fs (mimeType (current_recorder s))) = concat (map blob_bytes fs) \<and>
           blob_type (new_Blob fs (mimeType (current_recorder s)))
             = normalize_type (mimeType (current_recorder s)) \<and>
           onStop_calls s' = onStop_calls s @
             (if onStop_given s then [new_Blob fs (mimeType (current_recorder s))] else []) \<and>
           ((onStop_given s \<longrightarrow> cb = Returns) \<longrightarrow> status s' = stopped \<and> audioChunksRef s' = [])"
proof -
  from assms(1) have inv: "hook_inv s" by (rule reachable_inv)
  let ?t = "reset (stopRecording s)"
  let ?r = "length (recorders s) - 1"
  note sf = stopRecording_finalizing [OF inv assms(2,3)]
  have t: "recorders ?t = recorders (stopRecording s)" "audioChunksRef ?t = []"
    "object_urls ?t = object_urls s" "onStop_calls ?t = onStop_calls s"
    "onStop_given ?t = onStop_given s"
    using sf by (simp_all add: reset_def)
  then have cur: "current_recorder ?t = current_recorder (stopRecording s)"
    by (simp add: current_recorder_def)
  have tinv: "hook_inv ?t" using inv by (intro hook_inv_reset hook_inv_stopRecording)
  have tne: "recorders ?t \<noteq> []" and tfin: "finalizing (current_recorder ?t)"
    and len: "length (recorders ?t) = length (recorders s)"
    using sf t(1) cur by simp_all
  from finalize_after [OF tinv tne tfin, of fs cb] obtain s' where
    r: "run (map (DataAvailable ?r) fs @ [StopEvent ?r cb]) ?t = Some s'" and
    p: "mediaBlobUrl s' = Some (length (object_urls ?t))"
      "object_urls s' = object_urls ?t @ [new_Blob (audioChunksRef ?t @ fs) (mimeType (current_recorder ?t))]"
      "onStop_calls s' = onStop_calls ?t @
         (if onStop_given ?t
          then [new_Blob (audioChunksRef ?t @ fs) (mimeType (current_recorder ?t))] else [])"
      "(onStop_given ?t \<longrightarrow> cb = Returns) \<longrightarrow> status s' = stopped \<and> audioChunksRef s' = []"
    unfolding len by blast
  from r have run: "run ([StopCall, ResetCall] @ map (DataAvailable ?r) fs @ [StopEvent ?r cb]) s = Some s'"
    by simp
  from inv sf have ref: "mediaRecorderRef s = Some ?r"
    by (auto simp: hook_inv_def)
  from sf cur have mt: "mimeType (current_recorder ?t) = mimeType (current_recorder s)" by simp
  have b: "blob_bytes (new_Blob fs (mimeType (current_recorder s))) = concat (map blob_bytes fs)"
    "blob_type (new_Blob fs (mimeType (current_recorder s)))
       = normalize_type (mimeType (current_recorder s))"
    by (simp_all add: new_Blob_def)
  from ref run p b show ?thesis
    unfolding t mt by (intro exI [of _ ?r] exI [of _ s']) simp
qed

theorem late_completion_after_reset_witness:
  "reachable recording_example \<and> status recording_example = recording \<and>
   rec_state (current_recorder recording_example) \<noteq> rs_inactive \<and>
   (\<exists>s'. run [StopCall, ResetCall, DataAvailable 0 chunk_example, StopEvent 0 Returns]
            recording_example = Some s' \<and>
      status s' = stopped \<and> mediaBlobUrl s' = Some 0 \<and>
      map blob_bytes (object_urls s') = [[1, 2]] \<and>
      onStop_calls s' = object_urls s' \<and> audioChunksRef s' = [])"
proof -
  have h: "status recording_example = recording \<or> status recording_example = paused"
    by (simp add: recording_example_eq)
  have a: "rec_state (current_recorder recording_example) \<noteq> rs_inactive"
    by (simp add: recording_example_eq current_recorder_def)
  then have a': "rec_state (current_recorder recording_example) \<noteq> rs_inactive \<or>
      finalizing (current_recorder recording_example)" by simp
  have e: "status recording_example = recording" "mediaRecorderRef recording_example = Some 0"
    "object_urls recording_example = []" "onStop_calls recording_example = []"
    "onStop_given recording_example"
    by (simp_all add: recording_example_eq)
  let ?b = "new_Blob [chunk_example] (mimeType (current_recorder recording_example))"
  from late_completion_after_reset [OF reachable_recording_example h a', of "[chunk_example]" Returns]
  obtain r s' where
    r: "mediaRecorderRef recording_example = Some r"
    and q: "run ([StopCall, ResetCall] @ map (DataAvailable r) [chunk_example] @ [StopEvent r Returns])
             recording_example = Some s'"
    and p: "mediaBlobUrl s' = Some (length (object_urls recording_example))"
      "object_urls s' = object_urls recording_example @ [?b]"
      "blob_bytes ?b = concat (map blob_bytes [chunk_example])"
      "onStop_calls s' = onStop_calls recording_example @
         (if onStop_given recording_example then [?b] else [])"
      "(onStop_given recording_example \<longrightarrow> Returns = Returns)
         \<longrightarrow> status s' = stopped \<and> audioChunksRef s' = []"
    by blast
  from r e have r0: "r = 0" by simp
  from q have q': "run [StopCall, ResetCall, DataAvailable 0 chunk_example, StopEvent 0 Returns]
      recording_example = Some s'"
    unfolding r0 by simp
  from p e have p': "mediaBlobUrl s' = Some 0" "map blob_bytes (object_urls s') = [[1, 2]]"
    "onStop_calls s' = object_urls s'" "status s' = stopped" "audioChunksRef s' = []"
    by (simp_all add: chunk_example_def)
  from reachable_recording_example e(1) a q' p' show ?thesis
    by (intro conjI exI [of _ s']) assumption+
qed

text \<open>
  C6. When the device-access request of a pending \<^verbatim>\<open>start()\<close> fails, the \<^verbatim>\<open>catch\<close> block
  turns the failure into state: a permission refusal (a \<^verbatim>\<open>DOMException\<close> named
  \<^verbatim>\<open>NotAllowedError\<close>) gives status \<^verbatim>\<open>permission_denied\<close>, any other error gives
  \<^verbatim>\<open>idle\<close>. Nothing else of the hook changes: no stream and no recorder is created, the
  refs, the artifact reference, the fragment buffer and the callback trace stay as they
  were, and no exception leaves the command.
\<close>

theorem access_failure_sets_status:
  assumes "0 < pending_requests s"
  shows "\<exists>s'. fire (Rejected err) s = Some s' \<and>
           status s' = (if err = DOMException ''NotAllowedError'' then permission_denied else idle) \<and>
           streams s' = streams s \<and> recorders s' = recorders s \<and>
           streamRef s' = streamRef s \<and> mediaRecorderRef s' = mediaRecorderRef s \<and>
           mediaBlobUrl s' = mediaBlobUrl s \<and> audioChunksRef s' = audioChunksRef s \<and>
           onStop_calls s' = onStop_calls s"
  using assms
  by (cases err) (simp_all add: startRecording_catch_def request_settled_def)

theorem access_failure_sets_status_witness:
  "0 < pending_requests pending_example \<and>
   (\<exists>s'. fire (Rejected (DOMException ''NotAllowedError'')) pending_example = Some s' \<and>
      status s' = permission_denied \<and> streams s' = [] \<and> recorders s' = []) \<and>
   (\<exists>s'. fire (Rejected (DOMException ''NotFoundError'')) pending_example = Some s' \<and>
      status s' = idle \<and> streams s' = [] \<and> recorders s' = [])"
proof -
  have h: "0 < pending_requests pending_example"
    by (simp add: pending_example_def startRecording_def)
  have e: "streams pending_example = []" "recorders pending_example = []"
    by (simp_all add: pending_example_def startRecording_def init_def)
  from access_failure_sets_status [OF h, of "DOMException ''NotAllowedError''"]
    access_failure_sets_status [OF h, of "DOMException ''NotFoundError''"] h e
  show ?thesis by auto
qed

text \<open>
  C7, as stated, fails. After a finished session, \<^verbatim>\<open>reset()\<close> sets \<^verbatim>\<open>mediaBlobUrl\<close> to
  \<^verbatim>\<open>null\<close>, but the object URL it held is not revoked: URL 0 is still registered, for
  the same blob, so the artifact reference stays live.
\<close>

theorem reset_keeps_url_registered_counterexample:
  "run first_take (init True) = Some stopped_example \<and>
   mediaBlobUrl stopped_example = Some 0 \<and>
   fire ResetCall stopped_example = Some (reset stopped_example) \<and>
   0 < length (object_urls (reset stopped_example)) \<and>
   object_urls (reset stopped_example) ! 0 = \<lparr>blob_bytes = [1, 2], blob_type = ''audio/webm''\<rparr>"
  by (simp add: run_first_take) (simp add: stopped_example_def reset_def)

text \<open>
  C7, amended. Whatever the state before, \<^verbatim>\<open>reset()\<close> is accepted and leaves status
  \<^verbatim>\<open>idle\<close>, an empty fragment buffer and no artifact reference in the hook
  (\<^verbatim>\<open>mediaBlobUrl\<close> is \<^verbatim>\<open>null\<close>). It revokes nothing: the registry of object URLs is as
  it was, so in a reachable state the URL that \<^verbatim>\<open>mediaBlobUrl\<close> held is still registered
  after the \<^verbatim>\<open>reset()\<close>.
\<close>

theorem reset_yields_idle:
  "fire ResetCall s = Some (reset s) \<and> status (reset s) = idle \<and>
   audioChunksRef (reset s) = [] \<and> mediaBlobUrl (reset s) = None \<and>
   object_urls (reset s) = object_urls s \<and>
   (reachable s \<longrightarrow> (\<forall>u. mediaBlobUrl s = Some u \<longrightarrow> u < length (object_urls (reset s))))"
proof -
  have "\<forall>u. mediaBlobUrl s = Some u \<longrightarrow> u < length (object_urls (reset s))" if "reachable s"
  proof -
    from that have "hook_inv s" by (rule reachable_inv)
    then show ?thesis by (simp add: hook_inv_def reset_def)
  qed
  then show ?thesis by (simp add: reset_def)
qed

theorem reset_yields_idle_witness:
  "reachable stopped_example \<and> mediaBlobUrl stopped_example = Some 0 \<and>
   status (reset stopped_example) = idle \<and> audioChunksRef (reset stopped_example) = [] \<and>
   mediaBlobUrl (reset stopped_example) = None \<and>
   0 < length (object_urls (reset stopped_example))"
proof -
  have e: "mediaBlobUrl stopped_example = Some 0" by (simp add: stopped_example_def)
  from reset_yields_idle [of stopped_example] reachable_stopped_example e
  show ?thesis by blast
qed

text \<open>
  C8. \<^verbatim>\<open>pause()\<close> in a state whose status is not \<^verbatim>\<open>recording\<close> returns the state as it
  was, every cell of it; so does \<^verbatim>\<open>resume()\<close> in a state whose status is not \<^verbatim>\<open>paused\<close>.
\<close>

theorem pause_resume_noop:
  "(status s \<noteq> recording \<longrightarrow> pauseRecording s = Inr s \<and> fire PauseCall s = Some s) \<and>
   (status s \<noteq> paused \<longrightarrow> resumeRecording s = Inr s \<and> fire ResumeCall s = Some s)"
  by (simp add: pauseRecording_noop resumeRecording_noop uncaught_def)

theorem pause_resume_noop_witness:
  "status (reset recording_example) \<noteq> recording \<and>
   mediaRecorderRef (reset recording_example) = Some 0 \<and>
   rec_state (recorders (reset recording_example) ! 0) = rs_recording \<and>
   pauseRecording (reset recording_example) = Inr (reset recording_example) \<and>
   fire PauseCall (reset recording_example) = Some (reset recording_example) \<and>
   status (reset paused_example) \<noteq> paused \<and>
   mediaRecorderRef (reset paused_example) = Some 0 \<and>
   rec_state (recorders (reset paused_example) ! 0) = rs_paused \<and>
   resumeRecording (reset paused_example) = Inr (reset paused_example) \<and>
   fire ResumeCall (reset paused_example) = Some (reset paused_example)"
proof -
  have h1: "status (reset recording_example) \<noteq> recording" by (simp add: reset_def)
  have h2: "status (reset paused_example) \<noteq> paused" by (simp add: reset_def)
  have e: "mediaRecorderRef (reset recording_example) = Some 0"
    "rec_state (recorders (reset recording_example) ! 0) = rs_recording"
    "mediaRecorderRef (reset paused_example) = Some 0"
    "rec_state (recorders (reset paused_example) ! 0) = rs_paused"
    by (simp_all add: reset_def recording_example_eq paused_example_def)
  from pause_resume_noop [of "reset recording_example"] h1
  have p: "pauseRecording (reset recording_example) = Inr (reset recording_example)"
    "fire PauseCall (reset recording_example) = Some (reset recording_example)"
    by blast+
  from pause_resume_noop [of "reset paused_example"] h2
  have r: "resumeRecording (reset paused_example) = Inr (reset paused_example)"
    "fire ResumeCall (reset paused_example) = Some (reset paused_example)"
    by blast+
  from h1 h2 e p r show ?thesis by blast
qed

text \<open>
  C9, as stated, fails. A fragment may be a blob of no bytes. With such a fragment
  accumulated before \<^verbatim>\<open>pause()\<close>, the buffer is not empty in the \<^verbatim>\<open>paused\<close> state, yet
  the artifact that \<^verbatim>\<open>stop()\<close> and the completion event produce has no bytes. And
  where an earlier completion event ended in a throwing \<^verbatim>\<open>onStop\<close>, the status is still
  \<^verbatim>\<open>paused\<close> over a recorder that is inactive with nothing queued: there \<^verbatim>\<open>stop()\<close>
  leaves no completion event due.
\<close>

theorem empty_fragment_empty_artifact_counterexample:
  "map_option (\<lambda>s. (status s, length (audioChunksRef s)))
     (run [StartCall, Granted 1 ''audio/webm'' NoFault, DataAvailable 0 empty_chunk, PauseCall]
        (init True))
     = Some (paused, 1) \<and>
   map_option (\<lambda>s. (status s, mediaBlobUrl s, map blob_bytes (object_urls s)))
     (run [StartCall, Granted 1 ''audio/webm'' NoFault, DataAvailable 0 empty_chunk, PauseCall,
           StopCall, StopEvent 0 Returns] (init True))
     = Some (stopped, Some 0, [[]]) \<and>
   map_option (\<lambda>s. (status s, map rec_state (recorders s), map finalizing (recorders s)))
     (run [StartCall, Granted 1 ''audio/webm'' NoFault, DataAvailable 0 chunk_example, PauseCall,
           StopCall, StopEvent 0 (Throws OtherError), StopCall] (init True))
     = Some (paused, [rs_inactive], [False])"
  by (simp add: empty_chunk_def chunk_example_def hook_defs)

text \<open>
  C9, amended. Take a reachable state with status \<^verbatim>\<open>paused\<close> whose recorder is still
  active (or has its completion event already due). \<^verbatim>\<open>stop()\<close> called without resuming
  still finalizes: the completion event of the recorder is due, and once it is handled,
  after whatever fragments the recorder still delivers, the artifact holds the bytes of
  the fragments accumulated before the \<^verbatim>\<open>stop()\<close>, those from before the pause among
  them, followed by the bytes of the later ones. The artifact is empty exactly when none
  of these fragments holds a byte. \<^verbatim>\<open>onStop\<close>, when given, receives that artifact, and
  when it is absent or returns the status ends as \<^verbatim>\<open>stopped\<close>.
\<close>

theorem stop_from_paused_finalizes:
  assumes "reachable s" and "status s = paused"
    and "rec_state (current_recorder s) \<noteq> rs_inactive \<or> finalizing (current_recorder s)"
  shows "\<exists>r s' u. mediaRecorderRef s = Some r \<and>
           run (StopCall # map (DataAvailable r) fs @ [StopEvent r cb]) s = Some s' \<and>
           mediaBlobUrl s' = Some u \<and> u < length (object_urls s') \<and>
           blob_bytes (object_urls s' ! u) =
             concat (map blob_bytes (audioChunksRef s)) @ concat (map blob_bytes fs) \<and>
           (blob_bytes (object_urls s' ! u) = [] \<longleftrightarrow>
              (\<forall>f \<in> set (audioChunksRef s @ fs). blob_bytes f = [])) \<and>
           onStop_calls s' = onStop_calls s @ (if onStop_given s then [object_urls s' ! u] else []) \<and>
           ((onStop_given s \<longrightarrow> cb = Returns) \<longrightarrow> status s' = stopped)"
proof -
  from assms(1) have inv: "hook_inv s" by (rule reachable_inv)
  from assms(2) have st: "status s = recording \<or> status s = paused" by simp
  let ?t = "stopRecording s"
  let ?r = "length (recorders s) - 1"
  let ?u = "length (object_urls s)"
  let ?blob = "new_Blob (audioChunksRef s @ fs) (mimeType (current_recorder s))"
  note sf = stopRecording_finalizing [OF inv st assms(3)]
  have tinv: "hook_inv ?t" using inv by (rule hook_inv_stopRecording)
  from sf have tne: "recorders ?t \<noteq> []" and tfin: "finalizing (current_recorder ?t)"
    and len: "length (recorders ?t) = length (recorders s)"
    by simp_all
  from finalize_after [OF tinv tne tfin, of fs cb] obtain s' where
    r: "run (map (DataAvailable ?r) fs @ [StopEvent ?r cb]) ?t = Some s'" and
    p: "mediaBlobUrl s' = Some (length (object_urls ?t))"
      "object_urls s' = object_urls ?t @ [new_Blob (audioChunksRef ?t @ fs) (mimeType (current_recorder ?t))]"
      "onStop_calls s' = onStop_calls ?t @
         (if onStop_given ?t
          then [new_Blob (audioChunksRef ?t @ fs) (mimeType (current_recorder ?t))] else [])"
      "(onStop_given ?t \<longrightarrow> cb = Returns) \<longrightarrow> status s' = stopped \<and> audioChunksRef s' = []"
    unfolding len by blast
  from p sf have p': "mediaBlobUrl s' = Some ?u" "object_urls s' = object_urls s @ [?blob]"
    "onStop_calls s' = onStop_calls s @ (if onStop_given s then [?blob] else [])"
    "(onStop_given s \<longrightarrow> cb = Returns) \<longrightarrow> status s' = stopped"
    by simp_all
  from p' have nth: "object_urls s' ! ?u = ?blob" and lt: "?u < length (object_urls s')"
    by simp_all
  have bytes: "blob_bytes ?blob =
      concat (map blob_bytes (audioChunksRef s)) @ concat (map blob_bytes fs)"
    by (simp add: new_Blob_def)
  have empty: "blob_bytes ?blob = [] \<longleftrightarrow> (\<forall>f \<in> set (audioChunksRef s @ fs). blob_bytes f = [])"
    by (auto simp: new_Blob_def)
  from r have run: "run (StopCall # map (DataAvailable ?r) fs @ [StopEvent ?r cb]) s = Some s'"
    by simp
  from inv sf have ref: "mediaRecorderRef s = Some ?r"
    by (auto simp: hook_inv_def)
  from ref run p'(1) lt bytes empty p'(3,4) show ?thesis
    unfolding nth [symmetric]
    by (intro exI [of _ ?r] exI [of _ s'] exI [of _ ?u]) simp
qed

theorem stop_from_paused_finalizes_witness:
  "reachable paused_example \<and> status paused_example = paused \<and>
   rec_state (current_recorder paused_example) \<noteq> rs_inactive \<and>
   (\<exists>s' u. run [StopCall, DataAvailable 0 chunk_example2, StopEvent 0 Returns] paused_example
              = Some s' \<and>
      status s' = stopped \<and> mediaBlobUrl s' = Some u \<and>
      blob_bytes (object_urls s' ! u) = [1, 2, 3] \<and>
      onStop_calls s' = [object_urls s' ! u])"
proof -
  have h: "status paused_example = paused" by (simp add: paused_example_def)
  have a: "rec_state (current_recorder paused_example) \<noteq> rs_inactive"
    by (simp add: paused_example_def current_recorder_def)
  then have a': "rec_state (current_recorder paused_example) \<noteq> rs_inactive \<or>
      finalizing (current_recorder paused_example)" by simp
  have e: "mediaRecorderRef paused_example = Some 0"
    "concat (map blob_bytes (audioChunksRef paused_example)) = [1, 2]"
    "onStop_calls paused_example = []" "onStop_given paused_example"
    by (simp_all add: paused_example_def)
  from stop_from_paused_finalizes [OF reachable_paused_example h a', of "[chunk_example2]" Returns]
  obtain r s' u where
    r: "mediaRecorderRef paused_example = Some r"
    and q: "run (StopCall # map (DataAvailable r) [chunk_example2] @ [StopEvent r Returns])
             paused_example = Some s'"
    and p: "mediaBlobUrl s' = Some u"
      "blob_bytes (object_urls s' ! u) =
         concat (map blob_bytes (audioChunksRef paused_example)) @
         concat (map blob_bytes [chunk_example2])"
      "onStop_calls s' = onStop_calls paused_example @
         (if onStop_given paused_example then [object_urls s' ! u] else [])"
      "(onStop_given paused_example \<longrightarrow> Returns = Returns) \<longrightarrow> status s' = stopped"
    by blast
  from r e have r0: "r = 0" by simp
  from q have q': "run [StopCall, DataAvailable 0 chunk_example2, StopEvent 0 Returns]
      paused_example = Some s'"
    unfolding r0 by simp
  from p e have p': "status s' = stopped" "blob_bytes (object_urls s' ! u) = [1, 2, 3]"
    "onStop_calls s' = [object_urls s' ! u]"
    by (simp_all add: chunk_example2_def)
  from reachable_paused_example h a q' p'(1) p(1) p'(2,3) show ?thesis
    by (intro conjI exI [of _ s'] exI [of _ u]) assumption+
qed

text \<open>
  C10, as stated, fails. The \<^verbatim>\<open>onstop\<close> handler sets the status only after the caller's
  \<^verbatim>\<open>onStop\<close> has returned. When \<^verbatim>\<open>onStop\<close> throws, the handler has run (the URL is
  stored, the callback has been invoked once), and the status is still \<^verbatim>\<open>recording\<close>.
\<close>

theorem throwing_callback_skips_stopped_counterexample:
  "map_option (\<lambda>s. (status s, mediaBlobUrl s, length (onStop_calls s)))
     (run throwing_take (init True))
   = Some (recording, Some 0, 1)"
  by (simp add: throwing_take_def chunk_example_def hook_defs)

text \<open>
  C10, amended. In a state whose status is \<^verbatim>\<open>recording\<close> or \<^verbatim>\<open>paused\<close>, \<^verbatim>\<open>stop()\<close>
  leaves the status and the artifact reference as they were. Through the pending-finalize
  window, while fragments arrive and \<^verbatim>\<open>stop()\<close> or \<^verbatim>\<open>start()\<close> are called, the status
  keeps that value. Whatever commands and device events follow, the status is not
  \<^verbatim>\<open>stopped\<close> as long as no completion event has been handled. In a reachable state,
  handling a completion event sets the status to \<^verbatim>\<open>stopped\<close> when the caller's
  \<^verbatim>\<open>onStop\<close> is absent or returns.
\<close>

theorem stop_keeps_status:
  assumes "status s = recording \<or> status s = paused"
  shows "status (stopRecording s) = status s \<and>
         mediaBlobUrl (stopRecording s) = mediaBlobUrl s \<and>
         (\<forall>es s'. run (StopCall # es) s = Some s' \<and> list_all in_window es
            \<longrightarrow> status s' = status s) \<and>
         (\<forall>es s'. run (StopCall # es) s = Some s' \<and> list_all (\<lambda>e. \<not> is_stop_event e) es
            \<longrightarrow> status s' \<noteq> stopped) \<and>
         (\<forall>es s' rid cb s''. reachable s \<and> run (StopCall # es) s = Some s' \<and>
              fire (StopEvent rid cb) s' = Some s'' \<and> (onStop_given s \<longrightarrow> cb = Returns)
            \<longrightarrow> status s'' = stopped)"
proof -
  have st: "status (stopRecording s) = status s" by (rule status_stopRecording)
  have url: "mediaBlobUrl (stopRecording s) = mediaBlobUrl s"
    by (simp add: stopRecording_def Let_def split: option.splits prod.splits)
  from assms st have ns: "status (stopRecording s) \<noteq> stopped" by auto
  have win: "status s' = status s"
    if "run (StopCall # es) s = Some s'" and "list_all in_window es" for es s'
  proof -
    from that(1) have "run es (stopRecording s) = Some s'" by simp
    from status_run_in_window [OF this that(2)] st show ?thesis by simp
  qed
  have nostop: "status s' \<noteq> stopped"
    if "run (StopCall # es) s = Some s'" and "list_all (\<lambda>e. \<not> is_stop_event e) es" for es s'
  proof -
    from that(1) have "run es (stopRecording s) = Some s'" by simp
    from not_stopped_without_stop_event [OF this ns that(2)] show ?thesis .
  qed
  have compl: "status s'' = stopped"
    if "reachable s" and "run (StopCall # es) s = Some s'"
      and "fire (StopEvent rid cb) s' = Some s''" and "onStop_given s \<longrightarrow> cb = Returns"
    for es s' rid cb s''
  proof -
    from that(1,2) have "reachable s'" using reachable_run by blast
    then have inv: "hook_inv s'" by (rule reachable_inv)
    from given_run [OF that(2)] that(4) have cl: "clears (onStop_given s') (StopEvent rid cb)"
      by simp
    from that(3) have en: "rid < length (recorders s')" "finalizing (recorders s' ! rid)"
      by (auto split: if_splits)
    from fire_StopEvent [OF inv en, of cb] that(3) cl show ?thesis by auto
  qed
  from st url win nostop compl show ?thesis by blast
qed

theorem stop_keeps_status_witness:
  "reachable recording_example \<and>
   (status recording_example = recording \<or> status recording_example = paused) \<and>
   status (stopRecording recording_example) = recording \<and>
   list_all in_window [DataAvailable 0 chunk_example] \<and>
   (\<exists>s' s''. run (StopCall # [DataAvailable 0 chunk_example]) recording_example = Some s' \<and>
      status s' = recording \<and>
      fire (StopEvent 0 Returns) s' = Some s'' \<and> status s'' = stopped)"
proof -
  let ?es = "[DataAvailable 0 chunk_example]"
  have h: "status recording_example = recording \<or> status recording_example = paused"
    by (simp add: recording_example_eq)
  have e: "status recording_example = recording"
    by (simp add: recording_example_eq)
  have w: "list_all in_window ?es" by simp
  have g: "onStop_given recording_example \<longrightarrow> Returns = Returns" by simp
  from run_stop_window obtain s' s'' where
    r: "run stop_window recording_example = Some s'"
    and f: "fire (StopEvent 0 Returns) s' = Some s''"
    by (auto simp: run_append split: option.splits)
  from r have r': "run (StopCall # ?es) recording_example = Some s'"
    by (simp only: stop_window_def)
  note t = stop_keeps_status [OF h]
  from t have a: "status (stopRecording recording_example) = status recording_example" by blast
  from t r' w have b: "status s' = status recording_example" by blast
  from t reachable_recording_example r' f g have c: "status s'' = stopped" by blast
  from a b e have a': "status (stopRecording recording_example) = recording"
    and b': "status s' = recording" by simp_all
  from reachable_recording_example h a' w r' b' f c show ?thesis
    by (intro conjI exI [of _ s'] exI [of _ s'']) assumption+
qed

end
